theory Spec2Isabelle
  imports Complex_Main
begin

section \<open>Configuration\<close>

text \<open>
  The frozen dataclass \<open>Config\<close> of \<open>FlappyBird.py\<close>. The fields annotated \<open>float\<close> are
  rationals here: every value the program computes with them is a multiple of one half
  (\<open>1.5\<close>, \<open>-10.5\<close>, integers), which binary floating point represents and adds exactly
  as long as it stays below \<open>2^53\<close>, so the arithmetic of the source and the arithmetic of
  the model agree there. A displacement beyond that size is far above \<open>DESLOCAMENTO_MAX\<close>
  in both and is replaced by it.
\<close>

record config =
  TELA_LARGURA :: int
  TELA_ALTURA :: int
  FPS :: int
  IMPULSO_PULO :: rat
  GRAVIDADE_TERMO :: rat
  DESLOCAMENTO_MAX :: rat
  ROTACAO_MAXIMA :: int
  VELOCIDADE_ROTACAO :: int
  TEMPO_ANIMACAO :: int
  ANGULO_MIN_ASA :: int
  DISTANCIA_CANO :: int
  VELOCIDADE_CANO :: int
  CANO_ALTURA_MIN :: int
  CANO_ALTURA_MAX :: int
  VELOCIDADE_CHAO :: int

definition CFG :: config where
  "CFG = \<lparr> TELA_LARGURA = 500, TELA_ALTURA = 800, FPS = 30,
           IMPULSO_PULO = - (21 / 2), GRAVIDADE_TERMO = 3 / 2, DESLOCAMENTO_MAX = 16,
           ROTACAO_MAXIMA = 25, VELOCIDADE_ROTACAO = 20, TEMPO_ANIMACAO = 5,
           ANGULO_MIN_ASA = - 80,
           DISTANCIA_CANO = 200, VELOCIDADE_CANO = 5,
           CANO_ALTURA_MIN = 50, CANO_ALTURA_MAX = 450,
           VELOCIDADE_CHAO = 5 \<rparr>"

section \<open>Images and their masks\<close>

text \<open>
  The core reads two things of a loaded image: its size and which of its pixels are
  opaque (through \<open>pygame.mask.from_surface\<close>). A surface is that data.
\<close>

record surface =
  get_width :: nat
  get_height :: nat
  opacos :: "(nat \<times> nat) list"

type_synonym mask = surface

definition from_surface :: "surface \<Rightarrow> mask" where
  "from_surface s = s"

text \<open>\<open>pygame.transform.flip(s, False, True)\<close>: the image upside down.\<close>

definition flip_vertical :: "surface \<Rightarrow> surface" where
  "flip_vertical s =
     s\<lparr> opacos := map (\<lambda>(i, j). (i, get_height s - 1 - j)) (opacos s) \<rparr>"

record assets =
  pipe :: surface
  base :: surface
  bird1 :: surface
  bird2 :: surface
  bird3 :: surface

definition imagens_passaro :: "assets \<Rightarrow> surface list" where
  "imagens_passaro A = [bird1 A, bird2 A, bird3 A]"

section \<open>Passaro\<close>

record passaro =
  passaro_x :: int
  passaro_y :: rat
  angulo :: int
  velocidade :: rat
  altura_inicio_pulo :: rat
  tempo :: int
  contagem_imagem :: int
  imagem :: surface

definition Passaro_init :: "int \<Rightarrow> rat \<Rightarrow> assets \<Rightarrow> passaro" where
  "Passaro_init x0 y0 A =
     \<lparr> passaro_x = x0, passaro_y = y0, angulo = 0, velocidade = 0,
       altura_inicio_pulo = y0, tempo = 0, contagem_imagem = 0,
       imagem = bird1 A \<rparr>"

definition pular :: "config \<Rightarrow> passaro \<Rightarrow> passaro" where
  "pular cfg p =
     p\<lparr> velocidade := IMPULSO_PULO cfg, tempo := 0, altura_inicio_pulo := passaro_y p \<rparr>"

text \<open>
  The local variable \<open>deslocamento\<close> of \<open>Passaro.mover\<close>, as a function of the body's
  velocity and of \<open>tempo\<close> after its increment: the two \<open>if\<close>s run one after the other,
  the second on the value the first leaves.
\<close>

definition deslocamento :: "config \<Rightarrow> rat \<Rightarrow> int \<Rightarrow> rat" where
  "deslocamento cfg v t =
     (let d0 = GRAVIDADE_TERMO cfg * (of_int t)\<^sup>2 + v * of_int t;
          d1 = (if d0 > DESLOCAMENTO_MAX cfg then DESLOCAMENTO_MAX cfg else d0);
          d2 = (if d1 < 0 then d1 - 2 else d1)
      in d2)"

definition mover :: "config \<Rightarrow> passaro \<Rightarrow> passaro" where
  "mover cfg p =
     (let t = tempo p + 1;
          d = deslocamento cfg (velocidade p) t;
          y1 = passaro_y p + d;
          a = (if d < 0 \<or> y1 < altura_inicio_pulo p + 50
               then (if angulo p < ROTACAO_MAXIMA cfg then ROTACAO_MAXIMA cfg else angulo p)
               else (if angulo p > ANGULO_MIN_ASA cfg
                     then angulo p - VELOCIDADE_ROTACAO cfg else angulo p))
      in p\<lparr> tempo := t, passaro_y := y1, angulo := a \<rparr>)"

definition get_mask :: "passaro \<Rightarrow> mask" where
  "get_mask p = from_surface (imagem p)"

text \<open>What the input source can do to a body between two ticks, and a run of it.\<close>

datatype acao = Mover | Pular

fun aplicar :: "config \<Rightarrow> passaro \<Rightarrow> acao \<Rightarrow> passaro" where
  "aplicar cfg p Mover = mover cfg p"
| "aplicar cfg p Pular = pular cfg p"

definition executar :: "config \<Rightarrow> acao list \<Rightarrow> passaro \<Rightarrow> passaro" where
  "executar cfg as p = foldl (aplicar cfg) p as"

section \<open>The collision test of pygame\<close>

text \<open>
  Modelled from the spec: \<open>pygame.Mask.overlap\<close> is library code the repository calls and
  does not contain. The spec's collision oracle "tests whether any opaque pixel of one
  silhouette overlaps an opaque pixel of the other" at the offset of the second mask's origin
  from the first's. \<open>get_at\<close> reads one bit, \<open>False\<close> outside the mask; \<open>overlap\<close> returns a
  point of intersection in the first mask's coordinates, or \<open>None\<close>. Which point pygame
  returns first is not used by the program, only whether there is one.
\<close>

definition get_at :: "mask \<Rightarrow> int \<times> int \<Rightarrow> bool" where
  "get_at m pt =
     (0 \<le> fst pt \<and> fst pt < int (get_width m) \<and> 0 \<le> snd pt \<and> snd pt < int (get_height m) \<and>
      (nat (fst pt), nat (snd pt)) \<in> set (opacos m))"

definition overlap :: "mask \<Rightarrow> mask \<Rightarrow> int \<times> int \<Rightarrow> (nat \<times> nat) option" where
  "overlap a b offset =
     List.find (\<lambda>(i, j). get_at a (int i, int j) \<and>
                          get_at b (int i - fst offset, int j - snd offset))
       (opacos a)"

text \<open>
  Modelled from the spec: \<open>overlaps(bodySilhouette, bodyPosition, obstacleSilhouette,
  obstaclePosition)\<close> computes the offset "obstacle position minus body position,
  component-wise" and tests the two silhouettes at that offset.
\<close>

definition overlaps :: "mask \<Rightarrow> int \<times> int \<Rightarrow> mask \<Rightarrow> int \<times> int \<Rightarrow> bool" where
  "overlaps a posA b posB =
     (overlap a b (fst posB - fst posA, snd posB - snd posA) \<noteq> None)"

text \<open>
  Python's \<open>round\<close> of a float, with no second argument: the nearest integer, a tie going
  to the even one.
\<close>

definition py_round :: "rat \<Rightarrow> int" where
  "py_round q =
     (let f = \<lfloor>q\<rfloor>; r = q - of_int f
      in if r < 1 / 2 then f
         else if r > 1 / 2 then f + 1
         else if even f then f else f + 1)"

section \<open>The random source\<close>

text \<open>
  The state of Python's global generator is the sequence of raw values it will still
  produce. \<open>random.randrange(start, stop)\<close> raises \<open>ValueError\<close> on an empty range and
  otherwise reduces one raw value into \<open>start, ..., stop - 1\<close>.
\<close>

datatype error = ValueError

type_synonym rng = "nat \<Rightarrow> nat"

definition randrange :: "int \<Rightarrow> int \<Rightarrow> rng \<Rightarrow> error + (int \<times> rng)" where
  "randrange start stop r =
     (if stop \<le> start then Inl ValueError
      else Inr (start + int (r 0 mod nat (stop - start)), \<lambda>n. r (Suc n)))"

section \<open>Cano\<close>

record cano =
  cano_x :: int
  altura :: int
  pos_topo :: int
  pos_base :: int
  passou :: bool

text \<open>
  The attributes \<open>CANO_TOPO\<close> and \<open>CANO_BASE\<close> are set once from the shared pipe image
  and never assigned again, so they are functions of the assets.
\<close>

definition CANO_TOPO :: "assets \<Rightarrow> surface" where
  "CANO_TOPO A = flip_vertical (pipe A)"

definition CANO_BASE :: "assets \<Rightarrow> surface" where
  "CANO_BASE A = pipe A"

definition definir_altura :: "config \<Rightarrow> assets \<Rightarrow> cano \<Rightarrow> rng \<Rightarrow> error + (cano \<times> rng)" where
  "definir_altura cfg A c r =
     (case randrange (CANO_ALTURA_MIN cfg) (CANO_ALTURA_MAX cfg) r of
        Inl e \<Rightarrow> Inl e
      | Inr (h, r') \<Rightarrow>
          Inr (c\<lparr> altura := h,
                  pos_topo := h - int (get_height (CANO_TOPO A)),
                  pos_base := h + DISTANCIA_CANO cfg \<rparr>, r'))"

definition Cano_init :: "config \<Rightarrow> assets \<Rightarrow> int \<Rightarrow> rng \<Rightarrow> error + (cano \<times> rng)" where
  "Cano_init cfg A x0 r =
     definir_altura cfg A
       \<lparr> cano_x = x0, altura = 0, pos_topo = 0, pos_base = 0, passou = False \<rparr> r"

definition cano_mover :: "config \<Rightarrow> cano \<Rightarrow> cano" where
  "cano_mover cfg c = c\<lparr> cano_x := cano_x c - VELOCIDADE_CANO cfg \<rparr>"

definition colidir :: "assets \<Rightarrow> cano \<Rightarrow> passaro \<Rightarrow> bool" where
  "colidir A c p =
     (let passaro_mask = get_mask p;
          topo_mask = from_surface (CANO_TOPO A);
          base_mask = from_surface (CANO_BASE A);
          distancia_topo = (cano_x c - passaro_x p, pos_topo c - py_round (passaro_y p));
          distancia_base = (cano_x c - passaro_x p, pos_base c - py_round (passaro_y p));
          topo_ponto = overlap passaro_mask topo_mask distancia_topo;
          base_ponto = overlap passaro_mask base_mask distancia_base
      in topo_ponto \<noteq> None \<or> base_ponto \<noteq> None)"

section \<open>Chao\<close>

record chao =
  chao_y :: int
  VELOCIDADE :: int
  LARGURA :: int
  chao_x1 :: int
  chao_x2 :: int

definition Chao_init :: "config \<Rightarrow> int \<Rightarrow> assets \<Rightarrow> chao" where
  "Chao_init cfg y0 A =
     \<lparr> chao_y = y0, VELOCIDADE = VELOCIDADE_CHAO cfg, LARGURA = int (get_width (base A)),
       chao_x1 = 0, chao_x2 = int (get_width (base A)) \<rparr>"

definition chao_mover :: "chao \<Rightarrow> chao" where
  "chao_mover g =
     (let x1 = chao_x1 g - VELOCIDADE g;
          x2 = chao_x2 g - VELOCIDADE g;
          x1' = (if x1 + LARGURA g < 0 then x2 + LARGURA g else x1);
          x2' = (if x2 + LARGURA g < 0 then x1' + LARGURA g else x2)
      in g\<lparr> chao_x1 := x1', chao_x2 := x2' \<rparr>)"

section \<open>Game\<close>

text \<open>
  The attributes that \<open>Game.reset\<close> assigns, and the state of the random generator. The
  assets are loaded once by the constructor and passed to every operation.
\<close>

record game =
  passaros :: "passaro list"
  chao :: chao
  canos :: "cano list"
  pontos :: int
  rodando :: bool
  rng :: rng

definition reset :: "config \<Rightarrow> assets \<Rightarrow> rng \<Rightarrow> error + game" where
  "reset cfg A r =
     (case Cano_init cfg A 700 r of
        Inl e \<Rightarrow> Inl e
      | Inr (c, r') \<Rightarrow>
          Inr \<lparr> passaros = [Passaro_init 230 350 A], chao = Chao_init cfg 730 A,
                canos = [c], pontos = 0, rodando = True, rng = r' \<rparr>)"

text \<open>
  \<open>Game.__init__\<close>: the calls into pygame set up the window, the clock and the assets;
  the session state is the one \<open>reset\<close> builds.
\<close>

definition Game_init :: "config \<Rightarrow> assets \<Rightarrow> rng \<Rightarrow> error + game" where
  "Game_init cfg A r = reset cfg A r"

datatype tecla = K_SPACE | K_r | K_ESCAPE | K_outra

datatype evento = QUIT | KEYDOWN tecla | Outro

fun processar_evento :: "config \<Rightarrow> assets \<Rightarrow> game \<Rightarrow> evento \<Rightarrow> error + game" where
  "processar_evento cfg A s QUIT = Inr (s\<lparr> rodando := False \<rparr>)"
| "processar_evento cfg A s (KEYDOWN K_SPACE) =
     Inr (s\<lparr> passaros := map (pular cfg) (passaros s) \<rparr>)"
| "processar_evento cfg A s (KEYDOWN K_r) = reset cfg A (rng s)"
| "processar_evento cfg A s (KEYDOWN k) = Inr s"
| "processar_evento cfg A s Outro = Inr s"

fun processar_eventos :: "config \<Rightarrow> assets \<Rightarrow> game \<Rightarrow> evento list \<Rightarrow> error + game" where
  "processar_eventos cfg A s [] = Inr s"
| "processar_eventos cfg A s (e # es) =
     (case processar_evento cfg A s e of
        Inl err \<Rightarrow> Inl err
      | Inr s' \<Rightarrow> processar_eventos cfg A s' es)"

text \<open>
  The inner loop of \<open>atualizar_estado\<close>, lines 309 to 316: it runs over a copy of the
  active bodies made before the loop, and removes from the live list. The test of line 314
  stands after the collision branch, not inside it. Python's \<open>in\<close> and \<open>remove\<close> compare the
  bodies by identity; the list holds each body once, and bodies with equal attributes
  collide alike, so removing the first body with equal attributes leaves the same list of
  attributes (\<open>laco_passaros_filter\<close> below).
\<close>

fun laco_passaros ::
  "assets \<Rightarrow> passaro list \<Rightarrow> cano \<Rightarrow> passaro list \<Rightarrow> bool \<Rightarrow> cano \<times> passaro list \<times> bool" where
  "laco_passaros A [] c ps adicionar_cano = (c, ps, adicionar_cano)"
| "laco_passaros A (p # copia) c ps adicionar_cano =
     (let ps1 = (if colidir A c p then (if p \<in> set ps then remove1 p ps else ps) else ps)
      in if \<not> passou c \<and> passaro_x p > cano_x c
         then laco_passaros A copia (c\<lparr> passou := True \<rparr>) ps1 True
         else laco_passaros A copia c ps1 adicionar_cano)"

text \<open>
  The outer loop, lines 308 to 320: the obstacles as the loop leaves them, the live
  bodies, the flag \<open>adicionar_cano\<close> and the list \<open>remover\<close>.
\<close>

fun laco_canos ::
  "config \<Rightarrow> assets \<Rightarrow> cano list \<Rightarrow> passaro list \<Rightarrow> bool
     \<Rightarrow> cano list \<times> passaro list \<times> bool \<times> cano list" where
  "laco_canos cfg A [] ps adicionar_cano = ([], ps, adicionar_cano, [])"
| "laco_canos cfg A (c # cs) ps adicionar_cano =
     (case laco_passaros A ps c ps adicionar_cano of
        (c1, ps1, ad1) \<Rightarrow>
          (let c2 = cano_mover cfg c1;
               rem = (if cano_x c2 + int (get_width (CANO_TOPO A)) < 0 then [c2] else [])
           in case laco_canos cfg A cs ps1 ad1 of
                (cs', ps', ad', rem') \<Rightarrow> (c2 # cs', ps', ad', rem @ rem')))"

text \<open>Lines 326 to 328.\<close>

fun remover_canos :: "cano list \<Rightarrow> cano list \<Rightarrow> cano list" where
  "remover_canos [] cs = cs"
| "remover_canos (c # rem) cs =
     remover_canos rem (if c \<in> set cs then remove1 c cs else cs)"

text \<open>Lines 331 to 334: the ground and the ceiling, again over a copy of the list.\<close>

fun laco_limites :: "chao \<Rightarrow> passaro list \<Rightarrow> passaro list \<Rightarrow> passaro list" where
  "laco_limites g [] ps = ps"
| "laco_limites g (p # copia) ps =
     laco_limites g copia
       (if passaro_y p + of_nat (get_height (imagem p)) > of_int (chao_y g) \<or> passaro_y p < 0
        then (if p \<in> set ps then remove1 p ps else ps)
        else ps)"

definition atualizar_estado :: "config \<Rightarrow> assets \<Rightarrow> game \<Rightarrow> error + game" where
  "atualizar_estado cfg A s =
     (let ps0 = map (mover cfg) (passaros s);
          g = chao_mover (chao s)
      in case laco_canos cfg A (canos s) ps0 False of
           (cs1, ps1, adicionar_cano, rem) \<Rightarrow>
             (case (if adicionar_cano
                    then (case Cano_init cfg A (TELA_LARGURA cfg + 100) (rng s) of
                            Inl e \<Rightarrow> Inl e
                          | Inr (c, r') \<Rightarrow> Inr (pontos s + 1, cs1 @ [c], r'))
                    else Inr (pontos s, cs1, rng s)) of
                Inl e \<Rightarrow> Inl e
              | Inr (pts, cs2, r') \<Rightarrow>
                  (let cs3 = remover_canos rem cs2;
                       ps2 = laco_limites g ps1 ps1
                   in Inr \<lparr> passaros = ps2, chao = g, canos = cs3, pontos = pts,
                           rodando = (if ps2 = [] then False else rodando s),
                           rng = r' \<rparr>)))"

section \<open>Auxiliary notions for the statements\<close>

text \<open>The obstacles as the loop of lines 308 to 320 leaves them, in the order of \<open>canos\<close>.\<close>

definition canos_apos_laco :: "config \<Rightarrow> assets \<Rightarrow> game \<Rightarrow> cano list" where
  "canos_apos_laco cfg A s = fst (laco_canos cfg A (canos s) (map (mover cfg) (passaros s)) False)"

text \<open>
  How many obstacles went from not passed to passed between two lists of the same
  obstacles, and how many obstacles of a list are not passed yet.
\<close>

definition transicoes :: "cano list \<Rightarrow> cano list \<Rightarrow> nat" where
  "transicoes cs cs' = length (filter (\<lambda>(c, c'). \<not> passou c \<and> passou c') (zip cs cs'))"

definition pendentes :: "cano list \<Rightarrow> nat" where
  "pendentes cs = length (filter (\<lambda>c. \<not> passou c) cs)"

text \<open>The test of line 314, over a whole copy of the bodies.\<close>

definition cruzou :: "passaro list \<Rightarrow> cano \<Rightarrow> bool" where
  "cruzou ps c = (\<not> passou c \<and> list_ex (\<lambda>p. passaro_x p > cano_x c) ps)"

definition passo_cano :: "config \<Rightarrow> passaro list \<Rightarrow> cano \<Rightarrow> cano" where
  "passo_cano cfg ps c = cano_mover cfg (c\<lparr> passou := passou c \<or> cruzou ps c \<rparr>)"

text \<open>The test of line 332.\<close>

definition fora :: "chao \<Rightarrow> passaro \<Rightarrow> bool" where
  "fora g p =
     (passaro_y p + of_nat (get_height (imagem p)) > of_int (chao_y g) \<or> passaro_y p < 0)"

text \<open>The clamp and the penalty of \<open>mover\<close> under the default configuration.\<close>

definition ajuste :: "rat \<Rightarrow> rat" where
  "ajuste d = (if d > 16 then 16 else if d < 0 then d - 2 else d)"

text \<open>The angles a body takes once it has moved, and what holds of a body before that.\<close>

definition angulos :: "int set" where
  "angulos = {25, 5, - 15, - 35, - 55, - 75, - 95}"

definition angulo_inv :: "passaro \<Rightarrow> bool" where
  "angulo_inv p =
     (angulo p \<in> angulos \<or>
      angulo p = 0 \<and> tempo p = 0 \<and> altura_inicio_pulo p = passaro_y p \<and>
        (velocidade p = 0 \<or> velocidade p = - (21 / 2)))"

text \<open>The sessions the program gets into: construction, input events, ticks.\<close>

inductive alcancavel :: "assets \<Rightarrow> game \<Rightarrow> bool" for A :: assets where
  inicio: "Game_init CFG A r = Inr s \<Longrightarrow> alcancavel A s"
| eventos: "alcancavel A s \<Longrightarrow> processar_eventos CFG A s es = Inr s' \<Longrightarrow> alcancavel A s'"
| tick: "alcancavel A s \<Longrightarrow> atualizar_estado CFG A s = Inr s' \<Longrightarrow> alcancavel A s'"


text \<open>What of an obstacle describes its gap, and the test of line 319.\<close>

definition vao :: "cano \<Rightarrow> int \<times> int \<times> int" where
  "vao c = (altura c, pos_topo c, pos_base c)"

definition saiu :: "assets \<Rightarrow> cano \<Rightarrow> bool" where
  "saiu A c = (cano_x c + int (get_width (CANO_TOPO A)) < 0)"

text \<open>
  Following one obstacle through the session. The tick keeps the obstacles in their order
  and drops those that left the screen, so the obstacle at place \<open>i\<close> before a tick, if it
  stays, stands after the tick at the place that counts the obstacles kept before it.
  \<open>rastro A s i s' j\<close>: ticks and input events other than the key R lead from \<open>s\<close> to \<open>s'\<close>,
  and the obstacle at place \<open>i\<close> of \<open>s\<close> is still there, at place \<open>j\<close> of \<open>s'\<close>.
\<close>

definition acompanha :: "assets \<Rightarrow> game \<Rightarrow> nat \<Rightarrow> nat option" where
  "acompanha A s i =
     (let apos = canos_apos_laco CFG A s
      in if i < length apos \<and> \<not> saiu A (apos ! i)
         then Some (length (filter (\<lambda>c. \<not> saiu A c) (take i apos)))
         else None)"

inductive rastro :: "assets \<Rightarrow> game \<Rightarrow> nat \<Rightarrow> game \<Rightarrow> nat \<Rightarrow> bool" for A :: assets where
  aqui: "rastro A s i s i"
| apos_tick: "rastro A s i s1 j \<Longrightarrow> atualizar_estado CFG A s1 = Inr s2 \<Longrightarrow>
     acompanha A s1 j = Some k \<Longrightarrow> rastro A s i s2 k"
| apos_evento: "rastro A s i s1 j \<Longrightarrow> e \<noteq> KEYDOWN K_r \<Longrightarrow>
     processar_evento CFG A s1 e = Inr s2 \<Longrightarrow> rastro A s i s2 j"

section \<open>Worked examples\<close>

text \<open>
  Small images: a pipe two pixels wide, birds of one pixel. With them a body at
  \<open>x = 230\<close> touches an obstacle at \<open>x = 229\<close> exactly when their rows agree.
\<close>

definition imagens_exemplo :: assets where
  "imagens_exemplo =
     \<lparr> pipe = \<lparr> get_width = 2, get_height = 1, opacos = [(0, 0), (1, 0)] \<rparr>,
       base = \<lparr> get_width = 4, get_height = 1, opacos = [] \<rparr>,
       bird1 = \<lparr> get_width = 1, get_height = 1, opacos = [(0, 0)] \<rparr>,
       bird2 = \<lparr> get_width = 1, get_height = 1, opacos = [(0, 0)] \<rparr>,
       bird3 = \<lparr> get_width = 1, get_height = 1, opacos = [(0, 0)] \<rparr> \<rparr>"

text \<open>A body that has just received an impulse, \<open>t\<close> ticks later.\<close>

definition pulou :: "int \<Rightarrow> passaro" where
  "pulou t = (pular CFG (Passaro_init 230 350 imagens_exemplo))\<lparr> tempo := t \<rparr>"

definition cano_exemplo :: cano where
  "cano_exemplo = \<lparr> cano_x = 229, altura = 100, pos_topo = 99, pos_base = 300, passou = False \<rparr>"


text \<open>The session that \<open>Game_init\<close> builds from the generator that always yields 0.\<close>

definition jogo_inicial :: game where
  "jogo_inicial =
     \<lparr> passaros = [Passaro_init 230 350 imagens_exemplo],
       chao = Chao_init CFG 730 imagens_exemplo,
       canos = [\<lparr> cano_x = 700, altura = 50, pos_topo = 49, pos_base = 250, passou = False \<rparr>],
       pontos = 0, rodando = True, rng = (\<lambda>n. 0) \<rparr>"

text \<open>Two bodies that cross the same obstacle in one tick, touching nothing.\<close>

definition jogo_dois :: game where
  "jogo_dois =
     \<lparr> passaros = [Passaro_init 230 350 imagens_exemplo, Passaro_init 230 300 imagens_exemplo],
       chao = Chao_init CFG 730 imagens_exemplo,
       canos = [cano_exemplo],
       pontos = 0, rodando = True, rng = (\<lambda>n. 0) \<rparr>"

text \<open>The session with two bodies after one tick and after two.\<close>

definition jogo_dois_1 :: game where
  "jogo_dois_1 =
     \<lparr> passaros = map (mover CFG) (passaros jogo_dois),
       chao = chao_mover (chao jogo_dois),
       canos = [cano_exemplo\<lparr> cano_x := 224, passou := True \<rparr>,
                \<lparr> cano_x = 600, altura = 50, pos_topo = 49, pos_base = 250, passou = False \<rparr>],
       pontos = 1, rodando = True, rng = (\<lambda>n. 0) \<rparr>"

definition jogo_dois_2 :: game where
  "jogo_dois_2 =
     \<lparr> passaros = map (mover CFG) (passaros jogo_dois_1),
       chao = chao_mover (chao jogo_dois_1),
       canos = [cano_exemplo\<lparr> cano_x := 219, passou := True \<rparr>,
                \<lparr> cano_x = 595, altura = 50, pos_topo = 49, pos_base = 250, passou = False \<rparr>],
       pontos = 1, rodando = True, rng = (\<lambda>n. 0) \<rparr>"


text \<open>A configuration whose range of gap heights is empty.\<close>

definition CFG_invalida :: config where
  "CFG_invalida = CFG\<lparr> CANO_ALTURA_MIN := 450 \<rparr>"

section \<open>The physics update\<close>

lemma deslocamento_CFG:
  "deslocamento CFG v t =
     (let d = 3 / 2 * (of_int t)\<^sup>2 + v * of_int t
      in if d > 16 then 16 else if d < 0 then d - 2 else d)"
  by (simp add: deslocamento_def CFG_def Let_def)

lemma mover_y:
  "passaro_y (mover cfg p) - passaro_y p = deslocamento cfg (velocidade p) (tempo p + 1)"
  by (simp add: mover_def Let_def)

text \<open>
  Claim C2. One call of \<open>mover\<close> first adds 1 to \<open>tempo\<close>, computes the displacement
  \<open>GRAVIDADE_TERMO * tempo\<^sup>2 + velocidade * tempo\<close> with the new \<open>tempo\<close>, replaces it by
  \<open>DESLOCAMENTO_MAX\<close> when it is larger, subtracts 2 from it when it is negative, and adds
  the result to the vertical position. The horizontal position, the velocity and the
  reference height of the last impulse stay as they were.
\<close>

theorem mover_fisica:
  "tempo (mover cfg p) = tempo p + 1 \<and>
   passaro_y (mover cfg p) = passaro_y p +
     (let d = GRAVIDADE_TERMO cfg * (of_int (tempo p + 1))\<^sup>2
                + velocidade p * of_int (tempo p + 1);
          c = (if d > DESLOCAMENTO_MAX cfg then DESLOCAMENTO_MAX cfg else d)
      in if c < 0 then c - 2 else c) \<and>
   passaro_x (mover cfg p) = passaro_x p \<and>
   velocidade (mover cfg p) = velocidade p \<and>
   altura_inicio_pulo (mover cfg p) = altura_inicio_pulo p"
  by (simp add: mover_def deslocamento_def Let_def)

lemma deslocamento_le_max: "deslocamento CFG v t \<le> 16"
  by (simp add: deslocamento_CFG Let_def)

lemma ajuste_mono: "a \<le> b \<Longrightarrow> ajuste a \<le> ajuste b"
  by (simp add: ajuste_def)

lemma bruto_mono:
  fixes g v :: rat and t t' :: int
  assumes "0 \<le> g" "0 \<le> t" "t \<le> t'" "\<bar>v\<bar> \<le> g * of_int t"
  shows "g * (of_int t)\<^sup>2 + v * of_int t \<le> g * (of_int t')\<^sup>2 + v * of_int t'"
proof -
  have a: "0 \<le> g * of_int t + v" using assms(4) by linarith
  have b: "g * of_int t + v \<le> g * of_int t' + v"
    using assms(1,3) by (simp add: mult_left_mono)
  have "of_int t * (g * of_int t + v) \<le> of_int t' * (g * of_int t' + v)"
    by (rule mult_mono) (use assms a b in auto)
  then show ?thesis by (simp add: algebra_simps power2_eq_square)
qed

lemma deslocamento_ajuste:
  "deslocamento CFG v t = ajuste (3 / 2 * (of_int t)\<^sup>2 + v * of_int t)"
  by (simp add: deslocamento_CFG ajuste_def Let_def)

lemma deslocamento_mono:
  assumes "0 \<le> t" "t \<le> t'" "\<bar>v\<bar> \<le> 3 / 2 * of_int t"
  shows "deslocamento CFG v t \<le> deslocamento CFG v t'"
  unfolding deslocamento_ajuste
  by (rule ajuste_mono, rule bruto_mono) (use assms in auto)

text \<open>
  Claim C7. The displacement that \<open>mover\<close> applies, the change of the vertical position,
  is never more than \<open>DESLOCAMENTO_MAX = 16\<close>. Between two bodies of the same velocity it
  does not decrease with the number of ticks since the impulse, from the tick on at which
  the quadratic term \<open>GRAVIDADE_TERMO * t\<^sup>2\<close> is at least the linear term
  \<open>\<bar>velocidade\<bar> * t\<close>, \<open>t\<close> being \<open>tempo\<close> after its increment.
\<close>

theorem deslocamento_limitado_monotono:
  "passaro_y (mover CFG p) - passaro_y p \<le> DESLOCAMENTO_MAX CFG \<and>
   DESLOCAMENTO_MAX CFG = 16 \<and>
   (velocidade q = velocidade p \<and> 0 \<le> tempo p \<and> tempo p \<le> tempo q \<and>
    \<bar>velocidade p\<bar> \<le> GRAVIDADE_TERMO CFG * of_int (tempo p + 1)
    \<longrightarrow> passaro_y (mover CFG p) - passaro_y p \<le> passaro_y (mover CFG q) - passaro_y q)"
proof -
  have "passaro_y (mover CFG p) - passaro_y p \<le> DESLOCAMENTO_MAX CFG"
    using deslocamento_le_max [of "velocidade p" "tempo p + 1"]
    by (simp add: mover_y CFG_def)
  moreover have "DESLOCAMENTO_MAX CFG = 16" by (simp add: CFG_def)
  moreover have "passaro_y (mover CFG p) - passaro_y p \<le> passaro_y (mover CFG q) - passaro_y q"
    if "velocidade q = velocidade p" "0 \<le> tempo p" "tempo p \<le> tempo q"
       "\<bar>velocidade p\<bar> \<le> GRAVIDADE_TERMO CFG * of_int (tempo p + 1)"
    using deslocamento_mono [of "tempo p + 1" "tempo q + 1" "velocidade p"] that
    by (simp add: mover_y CFG_def)
  ultimately show ?thesis by blast
qed

theorem deslocamento_limitado_monotono_witness:
  "velocidade (pulou 7) = velocidade (pulou 6) \<and> 0 \<le> tempo (pulou 6) \<and>
   tempo (pulou 6) \<le> tempo (pulou 7) \<and>
   \<bar>velocidade (pulou 6)\<bar> \<le> GRAVIDADE_TERMO CFG * of_int (tempo (pulou 6) + 1) \<and>
   passaro_y (mover CFG (pulou 6)) - passaro_y (pulou 6) = 0 \<and>
   passaro_y (mover CFG (pulou 7)) - passaro_y (pulou 7) = 12 \<and>
   passaro_y (mover CFG (pulou 6)) - passaro_y (pulou 6)
     \<le> passaro_y (mover CFG (pulou 7)) - passaro_y (pulou 7)"
  using deslocamento_limitado_monotono [of "pulou 6" "pulou 7"]
  by (simp add: pulou_def pular_def Passaro_init_def mover_def deslocamento_def CFG_def
        Let_def power2_eq_square)

section \<open>The rotation angle\<close>

lemma mover_angulo_inv: "angulo_inv p \<Longrightarrow> angulo_inv (mover CFG p)"
  unfolding angulo_inv_def
  by (auto simp: mover_def deslocamento_def Let_def CFG_def angulos_def)

lemma pular_angulo_inv: "angulo_inv p \<Longrightarrow> angulo_inv (pular CFG p)"
  unfolding angulo_inv_def
  by (auto simp: pular_def CFG_def)

lemma aplicar_angulo_inv: "angulo_inv p \<Longrightarrow> angulo_inv (aplicar CFG p a)"
  by (cases a) (simp_all add: mover_angulo_inv pular_angulo_inv)

lemma executar_angulo_inv: "angulo_inv p \<Longrightarrow> angulo_inv (executar CFG as p)"
  unfolding executar_def
  by (induction as arbitrary: p) (simp_all add: aplicar_angulo_inv)

text \<open>
  Claim C3, as stated, fails: a body that falls for ten ticks without an impulse has the
  angle -95, below \<open>ANGULO_MIN_ASA = -80\<close>. The decrement of line 140 is guarded by
  \<open>angulo > ANGULO_MIN_ASA\<close> and is not clamped, so the last step from -75 overshoots.
\<close>

theorem angulo_abaixo_do_minimo:
  "angulo (executar CFG (replicate 10 Mover) (Passaro_init 230 350 imagens_exemplo)) = - 95 \<and>
   \<not> ANGULO_MIN_ASA CFG
       \<le> angulo (executar CFG (replicate 10 Mover) (Passaro_init 230 350 imagens_exemplo))"
  by (simp add: executar_def numeral_eq_Suc mover_def deslocamento_def Passaro_init_def
        CFG_def Let_def power2_eq_square)

text \<open>
  Claim C3, amended. For every body as \<open>Passaro_init\<close> builds it and every sequence of
  physics updates and impulses, the angle never exceeds \<open>ROTACAO_MAXIMA = 25\<close> and stays
  above \<open>ANGULO_MIN_ASA - VELOCIDADE_ROTACAO = -100\<close>; it never falls below -95.
\<close>

theorem angulo_limites:
  "angulo (executar CFG as (Passaro_init x0 y0 A)) \<le> ROTACAO_MAXIMA CFG \<and>
   ROTACAO_MAXIMA CFG = 25 \<and>
   ANGULO_MIN_ASA CFG - VELOCIDADE_ROTACAO CFG < angulo (executar CFG as (Passaro_init x0 y0 A)) \<and>
   - 95 \<le> angulo (executar CFG as (Passaro_init x0 y0 A))"
proof -
  have "angulo_inv (Passaro_init x0 y0 A)"
    by (simp add: Passaro_init_def angulo_inv_def)
  then have "angulo_inv (executar CFG as (Passaro_init x0 y0 A))"
    by (rule executar_angulo_inv)
  then show ?thesis by (auto simp: angulo_inv_def angulos_def CFG_def)
qed

section \<open>The loops of the tick\<close>

lemma colidir_passou [simp]: "colidir A (c\<lparr> passou := b \<rparr>) p = colidir A c p"
  by (simp add: colidir_def)

text \<open>
  The inner loop removes exactly the bodies of the copy that collide, whatever their
  order and their repetitions, and sets the flag exactly when the test of line 314
  succeeds for some body of the copy.
\<close>

lemma laco_passaros_result:
  assumes "\<forall>q \<in> set F. \<not> colidir A c q"
  shows "laco_passaros A copia c (F @ copia) ad =
           (c\<lparr> passou := passou c \<or> cruzou copia c \<rparr>,
            F @ filter (\<lambda>p. \<not> colidir A c p) copia,
            ad \<or> cruzou copia c)"
  using assms
proof (induction copia arbitrary: c F ad)
  case Nil
  then show ?case by (simp add: cruzou_def)
next
  case (Cons p copia)
  show ?case
  proof (cases "colidir A c p")
    case True
    then have nF: "p \<notin> set F" using Cons.prems by blast
    then have r: "remove1 p (F @ p # copia) = F @ copia"
      by (simp add: remove1_append)
    have F': "\<forall>q\<in>set F. \<not> colidir A (c\<lparr>passou := True\<rparr>) q" using Cons.prems by simp
    show ?thesis
      using True r Cons.IH [OF Cons.prems, of ad] Cons.IH [OF F', of True]
      by (cases "passou c") (auto simp: cruzou_def Let_def)
  next
    case False
    then have F1: "\<forall>q\<in>set (F @ [p]). \<not> colidir A c q" using Cons.prems by simp
    then have F2: "\<forall>q\<in>set (F @ [p]). \<not> colidir A (c\<lparr>passou := True\<rparr>) q" by simp
    show ?thesis
      using False Cons.IH [OF F1, of ad] Cons.IH [OF F2, of True]
      by (cases "passou c") (auto simp: cruzou_def Let_def)
  qed
qed

lemma laco_passaros_filter:
  "laco_passaros A ps c ps ad =
     (c\<lparr> passou := passou c \<or> cruzou ps c \<rparr>, filter (\<lambda>p. \<not> colidir A c p) ps,
      ad \<or> cruzou ps c)"
  using laco_passaros_result [of "[]" A c ps ad] by simp

lemma laco_limites_result:
  assumes "\<forall>q \<in> set F. \<not> fora g q"
  shows "laco_limites g copia (F @ copia) = F @ filter (\<lambda>p. \<not> fora g p) copia"
  using assms
proof (induction copia arbitrary: F)
  case Nil
  then show ?case by simp
next
  case (Cons p copia)
  show ?case
  proof (cases "fora g p")
    case True
    then have "p \<notin> set F" using Cons.prems by blast
    then have r: "remove1 p (F @ p # copia) = F @ copia"
      by (simp add: remove1_append)
    from True
    have t: "passaro_y p + of_nat (get_height (imagem p)) > of_int (chao_y g) \<or> passaro_y p < 0"
      by (simp add: fora_def)
    show ?thesis using True t r Cons.IH [OF Cons.prems] by simp
  next
    case False
    then have F1: "\<forall>q\<in>set (F @ [p]). \<not> fora g q" using Cons.prems by simp
    from False
    have t: "\<not> (passaro_y p + of_nat (get_height (imagem p)) > of_int (chao_y g)
               \<or> passaro_y p < 0)"
      by (simp add: fora_def)
    show ?thesis using False t Cons.IH [OF F1] by simp
  qed
qed

lemma laco_limites_filter: "laco_limites g ps ps = filter (\<lambda>p. \<not> fora g p) ps"
  using laco_limites_result [of "[]" g ps] by simp

lemma laco_canos_Cons:
  "laco_canos cfg A (c # cs) ps ad =
     (case laco_canos cfg A cs (filter (\<lambda>p. \<not> colidir A c p) ps) (ad \<or> cruzou ps c) of
        (cs', ps', ad', rem') \<Rightarrow>
          (passo_cano cfg ps c # cs', ps', ad',
           (if cano_x (passo_cano cfg ps c) + int (get_width (CANO_TOPO A)) < 0
            then [passo_cano cfg ps c] else []) @ rem'))"
  by (simp add: laco_passaros_filter passo_cano_def Let_def)

lemma passo_cano_simps [simp]:
  "passou (passo_cano cfg ps c) = (passou c \<or> cruzou ps c)"
  "altura (passo_cano cfg ps c) = altura c"
  "pos_topo (passo_cano cfg ps c) = pos_topo c"
  "pos_base (passo_cano cfg ps c) = pos_base c"
  "cano_x (passo_cano cfg ps c) = cano_x c - VELOCIDADE_CANO cfg"
  by (simp_all add: passo_cano_def cano_mover_def)

lemma transicoes_Cons:
  "transicoes (c # cs) (c' # cs') =
     (if \<not> passou c \<and> passou c' then 1 else 0) + transicoes cs cs'"
  by (simp add: transicoes_def)

lemma pendentes_Cons:
  "pendentes (c # cs) = (if passou c then 0 else 1) + pendentes cs"
  by (simp add: pendentes_def)

lemma cruzou_passou: "cruzou ps c \<Longrightarrow> \<not> passou c"
  by (simp add: cruzou_def)

lemma laco_canos_conta:
  assumes "laco_canos cfg A cs ps ad = (cs', ps', ad', rem)"
  shows "length cs' = length cs \<and>
         transicoes cs cs' + pendentes cs' = pendentes cs \<and>
         ad' = (ad \<or> 0 < transicoes cs cs') \<and>
         list_all2 (\<lambda>c c'. (passou c \<longrightarrow> passou c') \<and> altura c' = altura c \<and>
                            pos_topo c' = pos_topo c \<and> pos_base c' = pos_base c) cs cs' \<and>
         set ps' \<subseteq> set ps \<and>
         rem = filter (\<lambda>c. cano_x c + int (get_width (CANO_TOPO A)) < 0) cs'"
  using assms
proof (induction cs arbitrary: ps ad cs' ps' ad' rem)
  case Nil
  then show ?case by (simp add: transicoes_def pendentes_def)
next
  case (Cons c cs)
  obtain ds qs bd rs where rest:
    "laco_canos cfg A cs (filter (\<lambda>p. \<not> colidir A c p) ps) (ad \<or> cruzou ps c) = (ds, qs, bd, rs)"
    by (metis prod_cases4)
  note ih = Cons.IH [OF rest]
  from Cons.prems rest have eqs:
    "cs' = passo_cano cfg ps c # ds" "ps' = qs" "ad' = bd"
    "rem = (if cano_x (passo_cano cfg ps c) + int (get_width (CANO_TOPO A)) < 0
            then [passo_cano cfg ps c] else []) @ rs"
    by (simp_all add: laco_canos_Cons del: laco_canos.simps split: if_splits)
  have "set qs \<subseteq> set ps" using ih by auto
  then show ?case
    using ih cruzou_passou [of ps c]
    by (auto simp: eqs transicoes_Cons pendentes_Cons)
qed


lemma canos_apos_laco_eq:
  "laco_canos cfg A (canos s) (map (mover cfg) (passaros s)) False = (cs1, ps1, ad, rem)
   \<Longrightarrow> canos_apos_laco cfg A s = cs1"
  by (simp add: canos_apos_laco_def)

lemma set_remover_canos: "set (remover_canos rem cs) \<subseteq> set cs"
proof (induction rem arbitrary: cs)
  case Nil
  then show ?case by simp
next
  case (Cons c rem)
  have "set (remover_canos rem (if c \<in> set cs then remove1 c cs else cs))
          \<subseteq> set (if c \<in> set cs then remove1 c cs else cs)"
    by (rule Cons.IH)
  also have "\<dots> \<subseteq> set cs" using set_remove1_subset [of c cs] by simp
  finally show ?case by simp
qed

lemma pendentes_remove1: "pendentes (remove1 c cs) \<le> pendentes cs"
  by (induction cs) (auto simp: pendentes_def)

lemma pendentes_remover_canos: "pendentes (remover_canos rem cs) \<le> pendentes cs"
proof (induction rem arbitrary: cs)
  case Nil
  then show ?case by simp
next
  case (Cons c rem)
  have "pendentes (remover_canos rem (if c \<in> set cs then remove1 c cs else cs))
          \<le> pendentes (if c \<in> set cs then remove1 c cs else cs)"
    by (rule Cons.IH)
  also have "\<dots> \<le> pendentes cs" using pendentes_remove1 [of c cs] by simp
  finally show ?case by simp
qed

text \<open>
  The list \<open>remover\<close> holds the obstacles of the loop that have left the screen, so lines
  326 to 328 keep the others in their order, and whatever was appended after them.
\<close>

lemma remover_canos_filter:
  assumes "\<forall>q \<in> set F. \<not> P q"
  shows "remover_canos (filter P xs) (F @ xs @ ys) = F @ filter (\<lambda>c. \<not> P c) xs @ ys"
  using assms
proof (induction xs arbitrary: F)
  case Nil
  then show ?case by simp
next
  case (Cons x xs)
  show ?case
  proof (cases "P x")
    case True
    then have "x \<notin> set F" using Cons.prems by blast
    then have r: "remove1 x (F @ x # xs @ ys) = F @ xs @ ys"
      by (simp add: remove1_append)
    show ?thesis using True r Cons.IH [OF Cons.prems] by simp
  next
    case False
    then have F1: "\<forall>q\<in>set (F @ [x]). \<not> P q" using Cons.prems by simp
    show ?thesis using False Cons.IH [OF F1] by simp
  qed
qed

text \<open>The loop changes of an obstacle its horizontal position and its flag, nothing else.\<close>

lemma laco_canos_mesmos:
  assumes "laco_canos cfg A cs ps ad = (cs', ps', ad', rem)"
  shows "list_all2 (\<lambda>c c'. c' = c\<lparr> cano_x := cano_x c - VELOCIDADE_CANO cfg, passou := passou c' \<rparr>)
           cs cs'"
  using assms
proof (induction cs arbitrary: ps ad cs' ps' ad' rem)
  case Nil
  then show ?case by simp
next
  case (Cons c cs)
  obtain ds qs bd rs where rest:
    "laco_canos cfg A cs (filter (\<lambda>p. \<not> colidir A c p) ps) (ad \<or> cruzou ps c) = (ds, qs, bd, rs)"
    by (metis prod_cases4)
  note ih = Cons.IH [OF rest]
  from Cons.prems rest have eqs: "cs' = passo_cano cfg ps c # ds"
    by (simp add: laco_canos_Cons del: laco_canos.simps split: if_splits)
  have "passo_cano cfg ps c
          = c\<lparr> cano_x := cano_x c - VELOCIDADE_CANO cfg, passou := passou (passo_cano cfg ps c) \<rparr>"
    by (simp add: passo_cano_def cano_mover_def)
  with ih show ?case by (simp add: eqs)
qed


section \<open>Obstacles under the default configuration\<close>


lemma Cano_init_CFG:
  "\<exists>c. Cano_init CFG A x0 r = Inr (c, \<lambda>n. r (Suc n)) \<and> cano_x c = x0 \<and> \<not> passou c \<and>
       50 \<le> altura c \<and> altura c < 450 \<and>
       pos_topo c = altura c - int (get_height (CANO_TOPO A)) \<and>
       pos_base c = altura c + 200"
  by (simp add: Cano_init_def definir_altura_def randrange_def CFG_def)

lemma reset_CFG:
  "\<exists>c. reset CFG A r =
          Inr \<lparr> passaros = [Passaro_init 230 350 A], chao = Chao_init CFG 730 A,
                canos = [c], pontos = 0, rodando = True, rng = (\<lambda>n. r (Suc n)) \<rparr> \<and>
        cano_x c = 700 \<and> \<not> passou c"
  using Cano_init_CFG [of A 700 r] by (auto simp: reset_def)

text \<open>Under the default configuration a tick never raises, and this is its result.\<close>

lemma atualizar_estado_CFG:
  assumes "laco_canos CFG A (canos s) (map (mover CFG) (passaros s)) False = (cs1, ps1, ad, rem)"
  shows "\<exists>novos r'.
           (if ad then \<exists>c. novos = [c] \<and> \<not> passou c \<and> cano_x c = 600 else novos = []) \<and>
           atualizar_estado CFG A s =
             Inr \<lparr> passaros = filter (\<lambda>p. \<not> fora (chao_mover (chao s)) p) ps1,
                   chao = chao_mover (chao s),
                   canos = remover_canos rem (cs1 @ novos),
                   pontos = pontos s + (if ad then 1 else 0),
                   rodando = (rodando s \<and> filter (\<lambda>p. \<not> fora (chao_mover (chao s)) p) ps1 \<noteq> []),
                   rng = r' \<rparr>"
proof (cases ad)
  case True
  obtain c where c: "Cano_init CFG A 600 (rng s) = Inr (c, \<lambda>n. rng s (Suc n))"
    "\<not> passou c" "cano_x c = 600"
    using Cano_init_CFG [of A 600 "rng s"] by blast
  have t: "TELA_LARGURA CFG + 100 = 600" by (simp add: CFG_def)
  show ?thesis
    using True c assms
    by (intro exI [of _ "[c]"] exI [of _ "\<lambda>n. rng s (Suc n)"])
       (simp add: atualizar_estado_def t laco_limites_filter Let_def)
next
  case False
  show ?thesis
    using False assms
    by (intro exI [of _ "[]"] exI [of _ "rng s"])
       (simp add: atualizar_estado_def laco_limites_filter Let_def)
qed

lemma atualizar_estado_canos:
  assumes "laco_canos CFG A (canos s) (map (mover CFG) (passaros s)) False = (cs1, ps1, ad, rem)"
  shows "\<exists>s' novos. atualizar_estado CFG A s = Inr s' \<and>
           canos s' = filter (\<lambda>c. \<not> saiu A c) cs1 @ novos \<and>
           pontos s' = pontos s + (if ad then 1 else 0) \<and>
           length novos = (if ad then 1 else 0) \<and>
           (\<forall>c \<in> set novos. \<not> passou c \<and> cano_x c = 600)"
proof -
  obtain novos r' where n:
    "if ad then \<exists>c. novos = [c] \<and> \<not> passou c \<and> cano_x c = 600 else novos = []"
    and s': "atualizar_estado CFG A s =
       Inr \<lparr> passaros = filter (\<lambda>p. \<not> fora (chao_mover (chao s)) p) ps1,
             chao = chao_mover (chao s),
             canos = remover_canos rem (cs1 @ novos),
             pontos = pontos s + (if ad then 1 else 0),
             rodando = (rodando s \<and> filter (\<lambda>p. \<not> fora (chao_mover (chao s)) p) ps1 \<noteq> []),
             rng = r' \<rparr>"
    using atualizar_estado_CFG [OF assms] by blast
  from laco_canos_conta [OF assms]
  have rem: "rem = filter (saiu A) cs1" by (simp add: saiu_def [abs_def])
  have "remover_canos (filter (saiu A) cs1) ([] @ cs1 @ novos)
          = [] @ filter (\<lambda>c. \<not> saiu A c) cs1 @ novos"
    by (rule remover_canos_filter) simp
  then have c: "remover_canos rem (cs1 @ novos) = filter (\<lambda>c. \<not> saiu A c) cs1 @ novos"
    by (simp add: rem)
  have l: "length novos = (if ad then 1 else 0)" using n by (cases ad) auto
  have f: "\<forall>c \<in> set novos. \<not> passou c \<and> cano_x c = 600" using n by (cases ad) auto
  show ?thesis using s' c l f by simp
qed

lemma evento_sem_reset:
  assumes "e \<noteq> KEYDOWN K_r"
  shows "\<exists>s'. processar_evento CFG A s e = Inr s' \<and> canos s' = canos s \<and> pontos s' = pontos s"
proof (cases e)
  case QUIT
  then show ?thesis by simp
next
  case (KEYDOWN k)
  then show ?thesis using assms by (cases k) auto
next
  case Outro
  then show ?thesis by simp
qed

section \<open>Evaluating the examples\<close>

lemma floor_rat_numeral:
  "\<lfloor>numeral a / numeral b :: rat\<rfloor> = numeral a div numeral b"
  using floor_divide_of_int_eq [of "numeral a" "numeral b", where ?'a = rat] by simp

lemmas avaliar =
  atualizar_estado_def Cano_init_def definir_altura_def randrange_def colidir_def overlap_def
  get_at_def get_mask_def from_surface_def CANO_TOPO_def CANO_BASE_def flip_vertical_def
  py_round_def floor_rat_numeral mover_def deslocamento_def cano_mover_def chao_mover_def
  Chao_init_def Passaro_init_def imagens_exemplo_def CFG_def Let_def

lemma laco_dois:
  "canos_apos_laco CFG imagens_exemplo jogo_dois
     = [cano_exemplo\<lparr> cano_x := 224, passou := True \<rparr>]"
  by (simp add: canos_apos_laco_def jogo_dois_def cano_exemplo_def avaliar)


lemma tick_dois_1: "atualizar_estado CFG imagens_exemplo jogo_dois = Inr jogo_dois_1"
  by (simp add: jogo_dois_1_def jogo_dois_def cano_exemplo_def avaliar)

lemma tick_dois_12: "atualizar_estado CFG imagens_exemplo jogo_dois_1 = Inr jogo_dois_2"
  by (simp add: jogo_dois_2_def jogo_dois_1_def jogo_dois_def cano_exemplo_def avaliar
        power2_eq_square)

lemma acompanha_dois:
  "acompanha imagens_exemplo jogo_dois 0 = Some 0"
  "acompanha imagens_exemplo jogo_dois_1 0 = Some 0"
  by (simp_all add: acompanha_def saiu_def canos_apos_laco_def jogo_dois_1_def jogo_dois_def
        cano_exemplo_def avaliar power2_eq_square)

section \<open>Score and the passed flag\<close>

lemma passou_monotono:
  "length (canos_apos_laco cfg A s) = length (canos s) \<and>
   (\<forall>i < length (canos s). passou (canos s ! i) \<longrightarrow> passou (canos_apos_laco cfg A s ! i))"
proof -
  obtain cs1 ps1 ad rem where l:
    "laco_canos cfg A (canos s) (map (mover cfg) (passaros s)) False = (cs1, ps1, ad, rem)"
    by (metis prod_cases4)
  note k = laco_canos_conta [OF l]
  from k have len: "length cs1 = length (canos s)" by (rule conjunct1)
  from k have all2:
    "list_all2 (\<lambda>c c'. (passou c \<longrightarrow> passou c') \<and> altura c' = altura c \<and>
                        pos_topo c' = pos_topo c \<and> pos_base c' = pos_base c) (canos s) cs1"
    by blast
  have "\<forall>i < length (canos s). passou (canos s ! i) \<longrightarrow> passou (cs1 ! i)"
    using list_all2_nthD [OF all2] by blast
  with len show ?thesis by (simp add: canos_apos_laco_eq [OF l])
qed

lemma tick_pontos:
  assumes "pendentes (canos s) \<le> 1"
  shows "\<exists>s'. atualizar_estado CFG A s = Inr s' \<and>
              pontos s' = pontos s + int (transicoes (canos s) (canos_apos_laco CFG A s)) \<and>
              (\<forall>c \<in> set (canos s'). c \<in> set (canos_apos_laco CFG A s) \<or> \<not> passou c) \<and>
              pendentes (canos s') \<le> 1"
proof -
  obtain cs1 ps1 ad rem where l:
    "laco_canos CFG A (canos s) (map (mover CFG) (passaros s)) False = (cs1, ps1, ad, rem)"
    by (metis prod_cases4)
  note k = laco_canos_conta [OF l]
  have cs1: "canos_apos_laco CFG A s = cs1" by (rule canos_apos_laco_eq [OF l])
  from k have sum: "transicoes (canos s) cs1 + pendentes cs1 = pendentes (canos s)" by blast
  from k have ad: "ad = (0 < transicoes (canos s) cs1)" by blast
  from sum assms have le1: "transicoes (canos s) cs1 \<le> 1" by linarith
  with ad have pts: "(if ad then 1 else 0) = int (transicoes (canos s) cs1)"
    by (cases "transicoes (canos s) cs1 = 0") auto
  obtain novos r' where n:
    "if ad then \<exists>c. novos = [c] \<and> \<not> passou c \<and> cano_x c = 600 else novos = []"
    and s': "atualizar_estado CFG A s =
       Inr \<lparr> passaros = filter (\<lambda>p. \<not> fora (chao_mover (chao s)) p) ps1,
             chao = chao_mover (chao s),
             canos = remover_canos rem (cs1 @ novos),
             pontos = pontos s + (if ad then 1 else 0),
             rodando = (rodando s \<and> filter (\<lambda>p. \<not> fora (chao_mover (chao s)) p) ps1 \<noteq> []),
             rng = r' \<rparr>"
    using atualizar_estado_CFG [OF l] by blast
  have novos: "\<forall>c \<in> set novos. \<not> passou c" using n by (cases ad) auto
  have "set (remover_canos rem (cs1 @ novos)) \<subseteq> set cs1 \<union> set novos"
    using set_remover_canos [of rem "cs1 @ novos"] by simp
  with novos have orig: "\<forall>c \<in> set (remover_canos rem (cs1 @ novos)). c \<in> set cs1 \<or> \<not> passou c"
    by blast
  have "pendentes (cs1 @ novos) \<le> 1"
  proof (cases ad)
    case True
    with ad sum assms have "pendentes cs1 = 0" by linarith
    moreover from True n obtain c where "novos = [c]" "\<not> passou c" by auto
    ultimately show ?thesis by (simp add: pendentes_def)
  next
    case False
    with n have "novos = []" by simp
    with sum assms show ?thesis by simp
  qed
  then have pend: "pendentes (remover_canos rem (cs1 @ novos)) \<le> 1"
    using pendentes_remover_canos [of rem "cs1 @ novos"] by linarith
  show ?thesis
    unfolding cs1 using s' pts orig pend by simp
qed

text \<open>
  Every session the program gets into has at most one obstacle that is not passed yet:
  the constructor makes one, and a tick appends one exactly when one is passed.
\<close>

lemma pendentes_reset: "reset CFG A r = Inr s \<Longrightarrow> pendentes (canos s) \<le> 1"
  using reset_CFG [of A r] by (auto simp: pendentes_def)

lemma pendentes_evento:
  "pendentes (canos s) \<le> 1 \<Longrightarrow> processar_evento CFG A s e = Inr s' \<Longrightarrow> pendentes (canos s') \<le> 1"
proof (cases e)
  case (KEYDOWN k)
  assume "pendentes (canos s) \<le> 1" "processar_evento CFG A s e = Inr s'"
  with KEYDOWN show ?thesis by (cases k) (auto dest: pendentes_reset)
qed auto

lemma pendentes_eventos:
  "pendentes (canos s) \<le> 1 \<Longrightarrow> processar_eventos CFG A s es = Inr s' \<Longrightarrow> pendentes (canos s') \<le> 1"
proof (induction es arbitrary: s)
  case Nil
  then show ?case by simp
next
  case (Cons e es)
  from Cons.prems(2) obtain s1 where e: "processar_evento CFG A s e = Inr s1"
    and es: "processar_eventos CFG A s1 es = Inr s'"
    by (auto split: sum.splits)
  from pendentes_evento [OF Cons.prems(1) e] have "pendentes (canos s1) \<le> 1" .
  then show ?case using es by (rule Cons.IH)
qed

lemma pendentes_tick:
  "pendentes (canos s) \<le> 1 \<Longrightarrow> atualizar_estado CFG A s = Inr s' \<Longrightarrow> pendentes (canos s') \<le> 1"
  using tick_pontos [of s A] by auto

lemma alcancavel_pendentes: "alcancavel A s \<Longrightarrow> pendentes (canos s) \<le> 1"
proof (induction rule: alcancavel.induct)
  case (inicio r s)
  then have "reset CFG A r = Inr s" by (simp add: Game_init_def)
  then show ?case by (rule pendentes_reset)
next
  case (eventos s es s')
  from eventos.IH eventos.hyps(2) show ?case by (rule pendentes_eventos)
next
  case (tick s s')
  from tick.IH tick.hyps(2) show ?case by (rule pendentes_tick)
qed

lemma passou_mesmos:
  "length (canos_apos_laco cfg A s) = length (canos s) \<and>
   (\<forall>i < length (canos s).
      canos_apos_laco cfg A s ! i
        = (canos s ! i)\<lparr> cano_x := cano_x (canos s ! i) - VELOCIDADE_CANO cfg,
                         passou := passou (canos_apos_laco cfg A s ! i) \<rparr> \<and>
      (passou (canos s ! i) \<longrightarrow> passou (canos_apos_laco cfg A s ! i)))"
proof -
  obtain cs1 ps1 ad rem where l:
    "laco_canos cfg A (canos s) (map (mover cfg) (passaros s)) False = (cs1, ps1, ad, rem)"
    by (metis prod_cases4)
  note m = laco_canos_mesmos [OF l]
  have "\<forall>i < length (canos s).
      cs1 ! i = (canos s ! i)\<lparr> cano_x := cano_x (canos s ! i) - VELOCIDADE_CANO cfg,
                               passou := passou (cs1 ! i) \<rparr>"
    using list_all2_nthD [OF m] by blast
  with passou_monotono [of cfg A s] show ?thesis
    by (simp add: canos_apos_laco_eq [OF l])
qed

lemma tick_canos:
  assumes "pendentes (canos s) \<le> 1"
  shows "\<exists>s' novos. atualizar_estado CFG A s = Inr s' \<and>
              pontos s' = pontos s + int (transicoes (canos s) (canos_apos_laco CFG A s)) \<and>
              canos s' = filter (\<lambda>c. \<not> saiu A c) (canos_apos_laco CFG A s) @ novos \<and>
              length novos = transicoes (canos s) (canos_apos_laco CFG A s) \<and>
              (\<forall>c \<in> set novos. \<not> passou c)"
proof -
  obtain cs1 ps1 ad rem where l:
    "laco_canos CFG A (canos s) (map (mover CFG) (passaros s)) False = (cs1, ps1, ad, rem)"
    by (metis prod_cases4)
  note k = laco_canos_conta [OF l]
  have cs1: "canos_apos_laco CFG A s = cs1" by (rule canos_apos_laco_eq [OF l])
  from k have sum: "transicoes (canos s) cs1 + pendentes cs1 = pendentes (canos s)" by blast
  from k have ad: "ad = (0 < transicoes (canos s) cs1)" by blast
  from sum assms have le1: "transicoes (canos s) cs1 \<le> 1" by linarith
  with ad have pts: "(if ad then 1 else 0) = transicoes (canos s) cs1"
    by (cases "transicoes (canos s) cs1 = 0") auto
  then have pti: "(if ad then 1 else 0) = int (transicoes (canos s) cs1)"
    by (cases ad) auto
  obtain s' novos where s': "atualizar_estado CFG A s = Inr s'"
    "canos s' = filter (\<lambda>c. \<not> saiu A c) cs1 @ novos"
    "pontos s' = pontos s + (if ad then 1 else 0)"
    "length novos = (if ad then 1 else 0)"
    "\<forall>c \<in> set novos. \<not> passou c \<and> cano_x c = 600"
    using atualizar_estado_canos [OF l] by blast
  show ?thesis
    unfolding cs1 using s' pts pti by auto
qed

text \<open>
  One obstacle through ticks and events: it keeps its gap, and its flag, once set, stays
  set.
\<close>

lemma filter_nth_kept:
  assumes "i < length xs" "P (xs ! i)"
  shows "length (filter P (take i xs)) < length (filter P xs) \<and>
         filter P xs ! length (filter P (take i xs)) = xs ! i"
proof -
  define ys where "ys = filter P (take i xs)"
  define zs where "zs = filter P (drop (Suc i) xs)"
  have "xs = take i xs @ xs ! i # drop (Suc i) xs"
    using assms(1) by (rule id_take_nth_drop)
  then have "filter P xs = filter P (take i xs @ xs ! i # drop (Suc i) xs)" by simp
  then have f: "filter P xs = ys @ xs ! i # zs"
    using assms(2) by (simp add: ys_def zs_def)
  have "length ys < length (ys @ xs ! i # zs)" by simp
  moreover have "(ys @ xs ! i # zs) ! length ys = xs ! i" by (rule nth_append_length)
  ultimately show ?thesis unfolding f ys_def [symmetric] by blast
qed

lemma acompanha_tick:
  assumes "atualizar_estado CFG A s = Inr s'" "acompanha A s i = Some j"
  shows "i < length (canos s) \<and> j < length (canos s') \<and>
         canos s' ! j = (canos s ! i)\<lparr> cano_x := cano_x (canos s ! i) - VELOCIDADE_CANO CFG,
                                      passou := passou (canos s' ! j) \<rparr> \<and>
         (passou (canos s ! i) \<longrightarrow> passou (canos s' ! j))"
proof -
  obtain cs1 ps1 ad rem where l:
    "laco_canos CFG A (canos s) (map (mover CFG) (passaros s)) False = (cs1, ps1, ad, rem)"
    by (metis prod_cases4)
  have cs1: "canos_apos_laco CFG A s = cs1" by (rule canos_apos_laco_eq [OF l])
  from assms(2) have i: "i < length cs1" "\<not> saiu A (cs1 ! i)"
    and j: "j = length (filter (\<lambda>c. \<not> saiu A c) (take i cs1))"
    by (auto simp: acompanha_def cs1 Let_def split: if_splits)
  obtain s1 novos where s1: "atualizar_estado CFG A s = Inr s1"
    "canos s1 = filter (\<lambda>c. \<not> saiu A c) cs1 @ novos"
    using atualizar_estado_canos [OF l] by blast
  with assms(1) have c: "canos s' = filter (\<lambda>c. \<not> saiu A c) cs1 @ novos" by simp
  from filter_nth_kept [of i cs1 "\<lambda>c. \<not> saiu A c"] i j
  have k: "j < length (filter (\<lambda>c. \<not> saiu A c) cs1)"
    "filter (\<lambda>c. \<not> saiu A c) cs1 ! j = cs1 ! i"
    by simp_all
  then have n: "j < length (canos s')" "canos s' ! j = cs1 ! i"
    by (simp_all add: c nth_append)
  from passou_mesmos [of CFG A s] i(1)
  have m: "i < length (canos s)"
    "cs1 ! i = (canos s ! i)\<lparr> cano_x := cano_x (canos s ! i) - VELOCIDADE_CANO CFG,
                               passou := passou (cs1 ! i) \<rparr>"
    "passou (canos s ! i) \<longrightarrow> passou (cs1 ! i)"
    by (simp_all add: cs1)
  show ?thesis using n m by simp
qed

lemma vao_mesmo:
  "c' = c\<lparr> cano_x := x, passou := b \<rparr> \<Longrightarrow> vao c' = vao c"
  by (simp add: vao_def)

lemma rastro_mesmo:
  assumes "rastro A s i s' j" "i < length (canos s)"
  shows "j < length (canos s') \<and> vao (canos s' ! j) = vao (canos s ! i) \<and>
         (passou (canos s ! i) \<longrightarrow> passou (canos s' ! j))"
  using assms
proof (induction rule: rastro.induct)
  case (aqui s i)
  then show ?case by simp
next
  case (apos_tick s i s1 j s2 k)
  from apos_tick.IH [OF apos_tick.prems]
  have ih: "j < length (canos s1)" "vao (canos s1 ! j) = vao (canos s ! i)"
    "passou (canos s ! i) \<longrightarrow> passou (canos s1 ! j)" by simp_all
  from acompanha_tick [OF apos_tick.hyps(2,3)]
  have st: "k < length (canos s2)"
    "canos s2 ! k = (canos s1 ! j)\<lparr> cano_x := cano_x (canos s1 ! j) - VELOCIDADE_CANO CFG,
                                    passou := passou (canos s2 ! k) \<rparr>"
    "passou (canos s1 ! j) \<longrightarrow> passou (canos s2 ! k)" by simp_all
  from st(2) have "vao (canos s2 ! k) = vao (canos s1 ! j)" by (rule vao_mesmo)
  with ih st show ?case by simp
next
  case (apos_evento s i s1 j e s2)
  from apos_evento.IH [OF apos_evento.prems]
  have ih: "j < length (canos s1)" "vao (canos s1 ! j) = vao (canos s ! i)"
    "passou (canos s ! i) \<longrightarrow> passou (canos s1 ! j)" by simp_all
  from evento_sem_reset [OF apos_evento.hyps(2), of A s1] apos_evento.hyps(3)
  have "canos s2 = canos s1" by auto
  with ih show ?case by simp
qed


lemma rastro_um: "rastro imagens_exemplo jogo_dois_1 0 jogo_dois_2 0"
proof -
  have "rastro imagens_exemplo jogo_dois_1 0 jogo_dois_1 0" by (rule rastro.aqui)
  then show ?thesis
    using tick_dois_12 acompanha_dois(2) by (rule rastro.apos_tick)
qed

text \<open>
  Claim C1. In a session with at most one obstacle not passed yet, which every session of
  the program is (\<open>alcancavel_pendentes\<close>), and with any number of active bodies. The loop
  of a tick keeps every obstacle in its place, changes of it only the horizontal position
  and the flag, and never takes a flag from passed back to not passed. The tick returns;
  the score grows by exactly the number of obstacles whose flag changed in it, however
  many bodies crossed; and the obstacles of the state it returns are exactly the obstacles
  as the loop left them, flags included, without those that left the screen, followed by
  one new obstacle, not passed, for each flag that changed. That state again has at most
  one obstacle not passed yet. An input event other than the key R leaves obstacles and
  score as they are. Over the obstacle's lifetime: wherever ticks and such events take
  the session while the obstacle is in it (\<open>rastro\<close>), a flag that was set is still set,
  so it goes from not passed to passed at most once.
\<close>

theorem passou_uma_vez_um_ponto:
  assumes "pendentes (canos s) \<le> 1"
  shows "length (canos_apos_laco CFG A s) = length (canos s) \<and>
         (\<forall>i < length (canos s).
            canos_apos_laco CFG A s ! i
              = (canos s ! i)\<lparr> cano_x := cano_x (canos s ! i) - VELOCIDADE_CANO CFG,
                               passou := passou (canos_apos_laco CFG A s ! i) \<rparr> \<and>
            (passou (canos s ! i) \<longrightarrow> passou (canos_apos_laco CFG A s ! i))) \<and>
         (\<exists>s' novos. atualizar_estado CFG A s = Inr s' \<and>
                pontos s' = pontos s + int (transicoes (canos s) (canos_apos_laco CFG A s)) \<and>
                canos s' = filter (\<lambda>c. \<not> saiu A c) (canos_apos_laco CFG A s) @ novos \<and>
                length novos = transicoes (canos s) (canos_apos_laco CFG A s) \<and>
                (\<forall>c \<in> set novos. \<not> passou c) \<and>
                (\<forall>c \<in> set (canos s'). c \<in> set (canos_apos_laco CFG A s) \<or> \<not> passou c) \<and>
                pendentes (canos s') \<le> 1) \<and>
         (e \<noteq> KEYDOWN K_r \<longrightarrow>
            (\<exists>s'. processar_evento CFG A s e = Inr s' \<and> canos s' = canos s \<and>
                   pontos s' = pontos s)) \<and>
         (rastro A s k s2 j \<and> k < length (canos s) \<longrightarrow>
            j < length (canos s2) \<and> (passou (canos s ! k) \<longrightarrow> passou (canos s2 ! j)))"
proof -
  obtain s' novos where t: "atualizar_estado CFG A s = Inr s'"
    "pontos s' = pontos s + int (transicoes (canos s) (canos_apos_laco CFG A s))"
    "canos s' = filter (\<lambda>c. \<not> saiu A c) (canos_apos_laco CFG A s) @ novos"
    "length novos = transicoes (canos s) (canos_apos_laco CFG A s)"
    "\<forall>c \<in> set novos. \<not> passou c"
    using tick_canos [OF assms, of A] by blast
  from tick_pontos [OF assms, of A] t(1)
  have p: "(\<forall>c \<in> set (canos s'). c \<in> set (canos_apos_laco CFG A s) \<or> \<not> passou c)"
    "pendentes (canos s') \<le> 1"
    by auto
  have ev: "\<exists>s'. processar_evento CFG A s e = Inr s' \<and> canos s' = canos s \<and> pontos s' = pontos s"
    if "e \<noteq> KEYDOWN K_r"
    using that by (rule evento_sem_reset)
  have ra: "j < length (canos s2) \<and> (passou (canos s ! k) \<longrightarrow> passou (canos s2 ! j))"
    if "rastro A s k s2 j \<and> k < length (canos s)"
    using rastro_mesmo [of A s k s2 j] that by blast
  from passou_mesmos [of CFG A s] t p ev ra show ?thesis by blast
qed

theorem passou_uma_vez_um_ponto_witness:
  "pendentes (canos jogo_dois) \<le> 1 \<and> length (passaros jogo_dois) = 2 \<and>
   transicoes (canos jogo_dois) (canos_apos_laco CFG imagens_exemplo jogo_dois) = 1 \<and>
   QUIT \<noteq> KEYDOWN K_r \<and>
   (\<exists>s'. processar_evento CFG imagens_exemplo jogo_dois QUIT = Inr s' \<and>
          canos s' = canos jogo_dois \<and> pontos s' = pontos jogo_dois) \<and>
   atualizar_estado CFG imagens_exemplo jogo_dois = Inr jogo_dois_1 \<and>
   pontos jogo_dois_1 = pontos jogo_dois + 1 \<and>
   pendentes (canos jogo_dois_1) \<le> 1 \<and>
   atualizar_estado CFG imagens_exemplo jogo_dois_1 = Inr jogo_dois_2 \<and>
   pontos jogo_dois_2 = pontos jogo_dois_1 \<and>
   rastro imagens_exemplo jogo_dois_1 0 jogo_dois_2 0 \<and> 0 < length (canos jogo_dois_1) \<and>
   passou (canos jogo_dois_1 ! 0) \<and> passou (canos jogo_dois_2 ! 0)"
proof -
  have h: "pendentes (canos jogo_dois) \<le> 1"
    by (simp add: jogo_dois_def cano_exemplo_def pendentes_def)
  have h1: "pendentes (canos jogo_dois_1) \<le> 1"
    by (simp add: jogo_dois_1_def cano_exemplo_def pendentes_def)
  have t: "transicoes (canos jogo_dois) (canos_apos_laco CFG imagens_exemplo jogo_dois) = 1"
    by (simp add: laco_dois) (simp add: jogo_dois_def cano_exemplo_def transicoes_def)
  have l: "length (passaros jogo_dois) = 2" by (simp add: jogo_dois_def)
  have p: "pontos jogo_dois_1 = pontos jogo_dois + 1" "pontos jogo_dois_2 = pontos jogo_dois_1"
    by (simp_all add: jogo_dois_def jogo_dois_1_def jogo_dois_2_def)
  have q: "QUIT \<noteq> KEYDOWN K_r" by simp
  have f: "0 < length (canos jogo_dois_1)" "passou (canos jogo_dois_1 ! 0)"
    by (simp_all add: jogo_dois_1_def cano_exemplo_def)
  show ?thesis
    using passou_uma_vez_um_ponto [OF h, of imagens_exemplo QUIT 0 jogo_dois 0]
      passou_uma_vez_um_ponto [OF h1, of imagens_exemplo QUIT 0 jogo_dois_2 0]
      h h1 l t p q f tick_dois_1 tick_dois_12 rastro_um
    by blast
qed



section \<open>The run state\<close>

lemma rodando_tick:
  "\<exists>s'. atualizar_estado CFG A s = Inr s' \<and> rodando s' = (rodando s \<and> passaros s' \<noteq> [])"
proof -
  obtain cs1 ps1 ad rem where l:
    "laco_canos CFG A (canos s) (map (mover CFG) (passaros s)) False = (cs1, ps1, ad, rem)"
    by (metis prod_cases4)
  from atualizar_estado_CFG [OF l] show ?thesis by auto
qed

lemma processar_evento_rodando:
  assumes "e \<noteq> QUIT" "rodando s"
  shows "\<exists>s'. processar_evento CFG A s e = Inr s' \<and> rodando s'"
proof (cases e)
  case QUIT
  with assms show ?thesis by simp
next
  case (KEYDOWN k)
  then show ?thesis using assms reset_CFG [of A "rng s"] by (cases k) auto
next
  case Outro
  then show ?thesis using assms by simp
qed

text \<open>
  Claim C5, as stated, fails: a \<open>QUIT\<close> event handled by \<open>processar_eventos\<close> sets
  \<open>rodando\<close> to \<open>False\<close> in the session just built, whose body is still active.
\<close>

theorem sair_com_passaros_ativos:
  "Game_init CFG imagens_exemplo (\<lambda>n. 0) = Inr jogo_inicial \<and>
   processar_eventos CFG imagens_exemplo jogo_inicial [QUIT]
     = Inr (jogo_inicial\<lparr> rodando := False \<rparr>) \<and>
   \<not> rodando (jogo_inicial\<lparr> rodando := False \<rparr>) \<and>
   passaros (jogo_inicial\<lparr> rodando := False \<rparr>) = [Passaro_init 230 350 imagens_exemplo]"
  by (simp add: Game_init_def reset_def jogo_inicial_def avaliar)

text \<open>
  Claim C5, amended. A tick returns, and after it the run is still on exactly when it was
  on before and the list of active bodies is not empty at the end of the tick: the tick
  ends the run if and only if no body is left. Outside the tick, a \<open>QUIT\<close> event ends the
  run whatever the bodies, and no other event ends it.
\<close>

theorem rodando_falso_tick_ou_sair:
  "(\<exists>s'. atualizar_estado CFG A s = Inr s' \<and> rodando s' = (rodando s \<and> passaros s' \<noteq> [])) \<and>
   processar_evento CFG A s QUIT = Inr (s\<lparr> rodando := False \<rparr>) \<and>
   (e \<noteq> QUIT \<and> rodando s \<longrightarrow> (\<exists>s'. processar_evento CFG A s e = Inr s' \<and> rodando s'))"
  using rodando_tick [of A s] processar_evento_rodando [of e s A] by simp

theorem rodando_falso_tick_ou_sair_witness:
  "KEYDOWN K_SPACE \<noteq> QUIT \<and> rodando jogo_inicial \<and>
   (\<exists>s'. processar_evento CFG imagens_exemplo jogo_inicial (KEYDOWN K_SPACE) = Inr s' \<and>
          rodando s')"
proof -
  have r: "rodando jogo_inicial" by (simp add: jogo_inicial_def)
  show ?thesis
    using rodando_falso_tick_ou_sair [of imagens_exemplo jogo_inicial "KEYDOWN K_SPACE"] r
    by auto
qed

section \<open>Reset and construction\<close>

text \<open>
  Claim C6. \<open>reset\<close> returns under the default configuration, and the session it leaves
  has the score 0, exactly one body, at (230, 350), exactly one obstacle, at the
  horizontal position 700 and not passed, and the run on. The constructor builds its
  session by the same \<open>reset\<close>, and the key R in \<open>processar_eventos\<close> runs it on the current
  state of the random generator.
\<close>

theorem reset_valores_de_construcao:
  "\<exists>c r'. reset CFG A r =
             Inr \<lparr> passaros = [Passaro_init 230 350 A], chao = Chao_init CFG 730 A,
                   canos = [c], pontos = 0, rodando = True, rng = r' \<rparr> \<and>
           passaro_x (Passaro_init 230 350 A) = 230 \<and>
           passaro_y (Passaro_init 230 350 A) = 350 \<and>
           cano_x c = 700 \<and> \<not> passou c \<and>
           Game_init CFG A r = reset CFG A r \<and>
           processar_evento CFG A s (KEYDOWN K_r) = reset CFG A (rng s)"
  using reset_CFG [of A r] by (auto simp: Passaro_init_def Game_init_def)

lemma Game_init_falha:
  "(Game_init cfg A r = Inl ValueError) = (CANO_ALTURA_MAX cfg \<le> CANO_ALTURA_MIN cfg)"
  by (simp add: Game_init_def reset_def Cano_init_def definir_altura_def randrange_def)

text \<open>
  Claim C9. With a configuration whose minimum gap height is not below its maximum, the
  constructor raises: it builds the first obstacle itself, and \<open>randrange\<close> refuses the
  empty range there.
\<close>

theorem config_invalida_falha_na_construcao:
  "CANO_ALTURA_MAX cfg \<le> CANO_ALTURA_MIN cfg \<Longrightarrow> Game_init cfg A r = Inl ValueError"
  by (simp add: Game_init_falha)

theorem config_invalida_falha_na_construcao_witness:
  "CANO_ALTURA_MAX CFG_invalida \<le> CANO_ALTURA_MIN CFG_invalida \<and>
   Game_init CFG_invalida imagens_exemplo (\<lambda>n. 0) = Inl ValueError"
proof -
  have h: "CANO_ALTURA_MAX CFG_invalida \<le> CANO_ALTURA_MIN CFG_invalida"
    by (simp add: CFG_invalida_def CFG_def)
  show ?thesis
    using config_invalida_falha_na_construcao [OF h, of imagens_exemplo "\<lambda>n. 0"] h by simp
qed

section \<open>The gap of an obstacle\<close>









section \<open>Symmetry of the collision test\<close>

lemma overlap_Some_iff:
  "(overlap a b (dx, dy) \<noteq> None) =
     (\<exists>i j. get_at a (i, j) \<and> get_at b (i - dx, j - dy))"
proof
  assume "overlap a b (dx, dy) \<noteq> None"
  then obtain pt where "pt \<in> set (opacos a)"
    "(case pt of (i, j) \<Rightarrow> get_at a (int i, int j) \<and> get_at b (int i - dx, int j - dy))"
    by (auto simp: overlap_def find_None_iff)
  then show "\<exists>i j. get_at a (i, j) \<and> get_at b (i - dx, j - dy)"
    by (cases pt) auto
next
  assume "\<exists>i j. get_at a (i, j) \<and> get_at b (i - dx, j - dy)"
  then obtain i j where g: "get_at a (i, j)" "get_at b (i - dx, j - dy)" by blast
  from g(1) have m: "(nat i, nat j) \<in> set (opacos a)" "0 \<le> i" "0 \<le> j"
    by (simp_all add: get_at_def)
  have n: "int (nat i) = i" "int (nat j) = j" using m(2,3) by simp_all
  have "case (nat i, nat j) of
          (i', j') \<Rightarrow> get_at a (int i', int j') \<and> get_at b (int i' - dx, int j' - dy)"
    using g by (simp only: n prod.case)
  with m(1) have "\<exists>pt. pt \<in> set (opacos a) \<and>
      (case pt of (i', j') \<Rightarrow> get_at a (int i', int j') \<and> get_at b (int i' - dx, int j' - dy))"
    by blast
  then show "overlap a b (dx, dy) \<noteq> None"
    by (simp add: overlap_def find_None_iff)
qed

lemma overlap_negado:
  "(overlap a b (dx, dy) \<noteq> None) = (overlap b a (- dx, - dy) \<noteq> None)"
proof -
  have "(\<exists>i j. get_at a (i, j) \<and> get_at b (i - dx, j - dy)) =
        (\<exists>i j. get_at b (i, j) \<and> get_at a (i + dx, j + dy))"
  proof
    assume "\<exists>i j. get_at a (i, j) \<and> get_at b (i - dx, j - dy)"
    then obtain i j where "get_at a (i, j)" "get_at b (i - dx, j - dy)" by blast
    then have "get_at b (i - dx, j - dy) \<and> get_at a ((i - dx) + dx, (j - dy) + dy)" by simp
    then show "\<exists>i j. get_at b (i, j) \<and> get_at a (i + dx, j + dy)" by blast
  next
    assume "\<exists>i j. get_at b (i, j) \<and> get_at a (i + dx, j + dy)"
    then obtain i j where "get_at b (i, j)" "get_at a (i + dx, j + dy)" by blast
    then have "get_at a (i + dx, j + dy) \<and> get_at b ((i + dx) - dx, (j + dy) - dy)" by simp
    then show "\<exists>i j. get_at a (i, j) \<and> get_at b (i - dx, j - dy)" by blast
  qed
  moreover have "(overlap b a (- dx, - dy) \<noteq> None) =
        (\<exists>i j. get_at b (i, j) \<and> get_at a (i - (- dx), j - (- dy)))"
    by (rule overlap_Some_iff)
  ultimately show ?thesis by (simp only: overlap_Some_iff diff_minus_eq_add)
qed

text \<open>\<open>colidir\<close> is the spec's oracle, asked for the upper and for the lower pipe.\<close>

lemma colidir_overlaps:
  "colidir A c p =
     (overlaps (get_mask p) (passaro_x p, py_round (passaro_y p))
               (from_surface (CANO_TOPO A)) (cano_x c, pos_topo c) \<or>
      overlaps (get_mask p) (passaro_x p, py_round (passaro_y p))
               (from_surface (CANO_BASE A)) (cano_x c, pos_base c))"
  by (simp add: colidir_def overlaps_def Let_def)

text \<open>
  Claim C8. The collision test is symmetric: testing silhouette \<open>a\<close> at \<open>posA\<close> against
  \<open>b\<close> at \<open>posB\<close> gives what testing \<open>b\<close> at \<open>posB\<close> against \<open>a\<close> at \<open>posA\<close> gives, which is
  the mask test with the two masks exchanged and the offset negated.
\<close>

theorem overlaps_simetrica:
  "overlaps a posA b posB = overlaps b posB a posA \<and>
   (overlap a b (dx, dy) \<noteq> None) = (overlap b a (- dx, - dy) \<noteq> None)"
proof -
  have "overlaps a posA b posB = overlaps b posB a posA"
    using overlap_negado [of a b "fst posB - fst posA" "snd posB - snd posA"]
    by (simp add: overlaps_def)
  then show ?thesis using overlap_negado [of a b dx dy] by blast
qed

end
